theory Spec2Isabelle
  imports Main
begin

section \<open>Python values and the collaborators of the transports\<close>

text \<open>
  The values that travel through the transports of \<^verbatim>\<open>elasticsearch_replay/transport.py\<close>:
  request bodies and response data are \<^verbatim>\<open>None\<close>, text, or the structured data a JSON
  document deserializes to. A dict is kept as an association list; the deserializer is
  taken to deliver dicts in one fixed key order, so that Python's \<^verbatim>\<open>==\<close> on these
  values is equality of the representation.
\<close>

datatype pyval =
    PNone
  | PBool bool
  | PInt int
  | PStr string
  | PList "pyval list"
  | PDict "(string \<times> pyval) list"

text \<open>Python's truth value of an object (\<^verbatim>\<open>if body\<close>).\<close>

fun truthy :: "pyval \<Rightarrow> bool" where
  "truthy PNone = False"
| "truthy (PBool b) = b"
| "truthy (PInt i) = (i \<noteq> 0)"
| "truthy (PStr s) = (s \<noteq> [])"
| "truthy (PList xs) = (xs \<noteq> [])"
| "truthy (PDict kvs) = (kvs \<noteq> [])"

text \<open>
  The status a call carries: the HTTP status code, or the text the host library puts in
  its place when no response arrived (\<^verbatim>\<open>'N/A'\<close> of a connection error).
\<close>

datatype status = Code int | NoCode string

text \<open>
  The exceptions of the module and of the code it calls. \<^verbatim>\<open>TransportError a b\<close> is an
  exception of that class or of a subclass, raised by the live call, with \<^verbatim>\<open>args[0]\<close> and
  \<^verbatim>\<open>args[1]\<close>. \<^verbatim>\<open>HostError status data\<close> is whatever the connection's
  \<^verbatim>\<open>_raise_error(status, data)\<close> raises in replay mode.
\<close>

datatype exn =
    SerializationError
  | TransportError status pyval
  | ValueError
  | IndexError
  | AttributeError
  | IOError
  | ReplayLogExceededError
  | RequestMatchError
  | ReplayFileParseError exn
  | HostError int pyval
  | OtherError string

text \<open>
  The external collaborators, taken as parameters: the serializer's \<^verbatim>\<open>dumps\<close> and the
  deserializer's \<^verbatim>\<open>loads\<close> (\<open>None\<close> is their \<^verbatim>\<open>SerializationError\<close>), and
  \<^verbatim>\<open>urllib.urlencode\<close>.
\<close>

record env =
  dumps :: "pyval \<Rightarrow> string option"
  loads :: "string \<Rightarrow> pyval option"
  urlencode :: "(string \<times> string) list \<Rightarrow> string"

section \<open>Strings\<close>

definition NL :: char where
  "NL = CHR 0x0A"

text \<open>The markers \<^verbatim>\<open>IN\<close>, \<^verbatim>\<open>OUT\<close> and \<^verbatim>\<open>END\<close> of the module.\<close>

definition IN_MARK :: string where
  "IN_MARK = ''#> ''"

definition OUT_MARK :: string where
  "OUT_MARK = ''#< ''"

definition END_MARK :: string where
  "END_MARK = ''##'' @ [NL]"

text \<open>\<^verbatim>\<open>s.split(c)\<close> for a one-character separator: never empty, one more piece than
  separators.\<close>

fun split_on :: "char \<Rightarrow> string \<Rightarrow> string list" where
  "split_on c [] = [[]]"
| "split_on c (x # xs) =
     (if x = c then [] # split_on c xs
      else (case split_on c xs of [] \<Rightarrow> [[x]] | y # ys \<Rightarrow> (x # y) # ys))"

text \<open>\<^verbatim>\<open>sep.join(xs)\<close>.\<close>

fun join_str :: "string \<Rightarrow> string list \<Rightarrow> string" where
  "join_str sep [] = []"
| "join_str sep [x] = x"
| "join_str sep (x # y # ys) = x @ sep @ join_str sep (y # ys)"

definition startswith :: "string \<Rightarrow> string \<Rightarrow> bool" where
  "startswith s p = (take (length p) s = p)"

definition endswith :: "string \<Rightarrow> string \<Rightarrow> bool" where
  "endswith s p = (length p \<le> length s \<and> drop (length s - length p) s = p)"

text \<open>\<^verbatim>\<open>s.rstrip('\n')\<close>.\<close>

definition rstrip_nl :: "string \<Rightarrow> string" where
  "rstrip_nl s = rev (dropWhile (\<lambda>c. c = NL) (rev s))"

text \<open>The lines a file object yields when iterated: each keeps its newline, the last
  may lack one.\<close>

fun file_lines_acc :: "string \<Rightarrow> string \<Rightarrow> string list" where
  "file_lines_acc cur [] = (if cur = [] then [] else [cur])"
| "file_lines_acc cur (x # xs) =
     (if x = NL then (cur @ [x]) # file_lines_acc [] xs
      else file_lines_acc (cur @ [x]) xs)"

definition file_lines :: "string \<Rightarrow> string list" where
  "file_lines s = file_lines_acc [] s"

subsection \<open>Decimal integers: \<^verbatim>\<open>'%s' % n\<close> and \<^verbatim>\<open>int(s)\<close>\<close>

definition digit_char :: "nat \<Rightarrow> char" where
  "digit_char d = ''0123456789'' ! (d mod 10)"

definition is_digit :: "char \<Rightarrow> bool" where
  "is_digit c = (c \<in> set ''0123456789'')"

text \<open>The value of a digit is its place among the ten digits.\<close>

definition digit_val :: "char \<Rightarrow> nat" where
  "digit_val c = length (takeWhile (\<lambda>d. d \<noteq> c) ''0123456789'')"

fun str_nat :: "nat \<Rightarrow> string" where
  "str_nat n = (if n < 10 then [digit_char n] else str_nat (n div 10) @ [digit_char (n mod 10)])"

declare str_nat.simps [simp del]

definition str_int :: "int \<Rightarrow> string" where
  "str_int i = (if i < 0 then CHR ''-'' # str_nat (nat (- i)) else str_nat (nat i))"

fun parse_digits :: "nat \<Rightarrow> string \<Rightarrow> nat option" where
  "parse_digits acc [] = Some acc"
| "parse_digits acc (c # cs) =
     (if is_digit c then parse_digits (10 * acc + digit_val c) cs else None)"

definition is_space :: "char \<Rightarrow> bool" where
  "is_space c = (c = CHR '' '' \<or> c = NL \<or> c = CHR 0x09 \<or> c = CHR 0x0B \<or> c = CHR 0x0C \<or> c = CHR 0x0D)"

definition strip_ws :: "string \<Rightarrow> string" where
  "strip_ws s = rev (dropWhile is_space (rev (dropWhile is_space s)))"

definition py_nat :: "string \<Rightarrow> nat option" where
  "py_nat s = (if s = [] then None else parse_digits 0 s)"

text \<open>\<^verbatim>\<open>int(s)\<close> on text: surrounding whitespace, an optional sign, decimal digits;
  \<open>None\<close> is the \<^verbatim>\<open>ValueError\<close>.\<close>

definition py_int :: "string \<Rightarrow> int option" where
  "py_int s =
     (case strip_ws s of
        [] \<Rightarrow> None
      | c # r \<Rightarrow>
          if c = CHR ''-'' then map_option (\<lambda>n. - int n) (py_nat r)
          else if c = CHR ''+'' then map_option int (py_nat r)
          else map_option int (py_nat (c # r)))"

text \<open>\<^verbatim>\<open>'%s' % status\<close>.\<close>

fun str_status :: "status \<Rightarrow> string" where
  "str_status (Code n) = str_int n"
| "str_status (NoCode s) = s"

section \<open>RecordTransport\<close>

type_synonym params = "(string \<times> string) list option"

type_synonym request = "string \<times> string \<times> params \<times> pyval"

text \<open>\<^verbatim>\<open>urlencode(params) if params else '-'\<close>: \<^verbatim>\<open>None\<close> and the empty mapping are
  both false.\<close>

definition params_token :: "env \<Rightarrow> params \<Rightarrow> string" where
  "params_token e params =
     (case params of
        None \<Rightarrow> ''-''
      | Some [] \<Rightarrow> ''-''
      | Some (p # ps) \<Rightarrow> urlencode e (p # ps))"

text \<open>\<^verbatim>\<open>('\n%s' % marker).join(body.split('\n')) if body else '-'\<close> on the serialized
  body.\<close>

definition out_body :: "string \<Rightarrow> string \<Rightarrow> string" where
  "out_body marker s =
     (if s \<noteq> [] then join_str (NL # marker) (split_on NL s) else ''-'')"

definition format_request :: "env \<Rightarrow> string \<Rightarrow> string \<Rightarrow> params \<Rightarrow> pyval \<Rightarrow> exn + string" where
  "format_request e method url params body =
     (if truthy body then
        (case dumps e body of
           None \<Rightarrow> Inl SerializationError
         | Some s \<Rightarrow>
             Inr (IN_MARK @ method @ '' '' @ url @ '' '' @ params_token e params @ [NL]
                  @ IN_MARK @ out_body IN_MARK s @ [NL]))
      else
        Inr (IN_MARK @ method @ '' '' @ url @ '' '' @ params_token e params @ [NL]
             @ IN_MARK @ ''-'' @ [NL]))"

definition format_response :: "env \<Rightarrow> status \<Rightarrow> pyval \<Rightarrow> exn + string" where
  "format_response e status body =
     (case dumps e body of
        None \<Rightarrow> Inl SerializationError
      | Some s \<Rightarrow>
          Inr (OUT_MARK @ str_status status @ [NL] @ OUT_MARK @ out_body OUT_MARK s @ [NL]))"

text \<open>The handle the transcript is written to: writing to a closed file raises.\<close>

record wfile =
  written :: string
  closed :: bool

definition write_file :: "wfile \<Rightarrow> string \<Rightarrow> exn + wfile" where
  "write_file f s = (if closed f then Inl ValueError else Inr (f\<lparr>written := written f @ s\<rparr>))"

definition flush_file :: "wfile \<Rightarrow> exn + wfile" where
  "flush_file f = (if closed f then Inl ValueError else Inr f)"

text \<open>The files \<^verbatim>\<open>open\<close> sees: the text of each readable path, and the paths that can
  be opened for writing.\<close>

record os =
  files :: "string \<Rightarrow> string option"
  can_create :: "string \<Rightarrow> bool"

datatype 'h recfile_arg = ArgNone | ArgPath string | ArgHandle 'h

text \<open>\<^verbatim>\<open>kwargs.pop('recfile', None)\<close>: \<open>None\<close> is the absent option.\<close>

definition pop_recfile :: "'h recfile_arg option \<Rightarrow> 'h recfile_arg" where
  "pop_recfile kw = (case kw of None \<Rightarrow> ArgNone | Some a \<Rightarrow> a)"

record record_transport =
  rec_recfile :: "wfile option"
  rec_calls :: "request list"
  rec_diag :: "exn list"

definition record_prepare_output_file :: "os \<Rightarrow> wfile recfile_arg \<Rightarrow> exn + wfile option" where
  "record_prepare_output_file fs path =
     (case path of
        ArgPath p \<Rightarrow>
          if p \<noteq> [] then
            (if can_create fs p then Inr (Some \<lparr>written = [], closed = False\<rparr>) else Inl IOError)
          else Inr None
      | ArgNone \<Rightarrow> Inr None
      | ArgHandle h \<Rightarrow> Inr (Some h))"

definition record_init :: "os \<Rightarrow> wfile recfile_arg option \<Rightarrow> exn + record_transport" where
  "record_init fs kw =
     (case record_prepare_output_file fs (pop_recfile kw) of
        Inl x \<Rightarrow> Inl x
      | Inr rf \<Rightarrow> Inr \<lparr>rec_recfile = rf, rec_calls = [], rec_diag = []\<rparr>)"

text \<open>The body of the \<^verbatim>\<open>try\<close> of \<^verbatim>\<open>RecordTransport.perform_request\<close>: the handle as the
  step leaves it, and the exception that ended it, if one did.\<close>

definition store_exchange ::
  "env \<Rightarrow> wfile \<Rightarrow> string \<Rightarrow> string \<Rightarrow> params \<Rightarrow> pyval \<Rightarrow> status \<Rightarrow> pyval \<Rightarrow> wfile \<times> exn option" where
  "store_exchange e f method url params body status data =
     (case format_request e method url params body of
        Inl x \<Rightarrow> (f, Some x)
      | Inr req \<Rightarrow>
     (case write_file f req of
        Inl x \<Rightarrow> (f, Some x)
      | Inr f1 \<Rightarrow>
     (case format_response e status data of
        Inl x \<Rightarrow> (f1, Some x)
      | Inr resp \<Rightarrow>
     (case write_file f1 resp of
        Inl x \<Rightarrow> (f1, Some x)
      | Inr f2 \<Rightarrow>
     (case write_file f2 ((if endswith resp [NL] then [] else [NL]) @ END_MARK) of
        Inl x \<Rightarrow> (f2, Some x)
      | Inr f3 \<Rightarrow>
     (case flush_file f3 of
        Inl x \<Rightarrow> (f3, Some x)
      | Inr f4 \<Rightarrow> (f4, None)))))))"

text \<open>\<^verbatim>\<open>if self.recfile: try: ... except Exception: logger.exception(...)\<close>.\<close>

definition record_exchange ::
  "env \<Rightarrow> record_transport \<Rightarrow> string \<Rightarrow> string \<Rightarrow> params \<Rightarrow> pyval \<Rightarrow> status \<Rightarrow> pyval \<Rightarrow> record_transport" where
  "record_exchange e t method url params body status data =
     (case rec_recfile t of
        None \<Rightarrow> t
      | Some f \<Rightarrow>
          (case store_exchange e f method url params body status data of
             (f', None) \<Rightarrow> t\<lparr>rec_recfile := Some f'\<rparr>
           | (f', Some x) \<Rightarrow> t\<lparr>rec_recfile := Some f', rec_diag := rec_diag t @ [x]\<rparr>))"

text \<open>
  \<^verbatim>\<open>RecordTransport.perform_request\<close>. \<open>live\<close> is the inherited
  \<^verbatim>\<open>Transport.perform_request\<close>: it returns \<^verbatim>\<open>(status, data)\<close> or raises. Only a
  \<^verbatim>\<open>TransportError\<close> is caught; any other exception leaves at once.
\<close>

definition record_perform_request ::
  "env \<Rightarrow> (request \<Rightarrow> exn + int \<times> pyval) \<Rightarrow> record_transport \<Rightarrow>
     string \<Rightarrow> string \<Rightarrow> params \<Rightarrow> pyval \<Rightarrow> (exn + int \<times> pyval) \<times> record_transport" where
  "record_perform_request e live t method url params body =
     (let t1 = t\<lparr>rec_calls := rec_calls t @ [(method, url, params, body)]\<rparr> in
      case live (method, url, params, body) of
        Inr (status, data) \<Rightarrow>
          (Inr (status, data), record_exchange e t1 method url params body (Code status) data)
      | Inl x \<Rightarrow>
          (case x of
             TransportError status data \<Rightarrow>
               (Inl x, record_exchange e t1 method url params body status data)
           | _ \<Rightarrow> (Inl x, t1)))"

section \<open>ReplayTransport\<close>

text \<open>The dict \<^verbatim>\<open>get_whole_request_info\<close> returns.\<close>

record exchange =
  x_method :: string
  x_url :: string
  x_params :: string
  x_body :: pyval
  x_status :: int
  x_response :: string

text \<open>The loop over \<^verbatim>\<open>retval.items()\<close> strips the values that are text.\<close>

fun rstrip_val :: "pyval \<Rightarrow> pyval" where
  "rstrip_val (PStr s) = PStr (rstrip_nl s)"
| "rstrip_val v = v"

definition get_whole_request_info :: "env \<Rightarrow> string list \<Rightarrow> string list \<Rightarrow> exn + exchange" where
  "get_whole_request_info e req resp =
     (case req of
        [] \<Rightarrow> Inl IndexError
      | header # req_rest \<Rightarrow>
     (case split_on CHR '' '' header of
        [method, url, params] \<Rightarrow>
          (let body = join_str [NL] req_rest in
           case resp of
             [] \<Rightarrow> Inl IndexError
           | status # resp_rest \<Rightarrow>
               (let response = join_str [NL] resp_rest;
                    deserialized =
                      (if body \<noteq> ''-'' @ [NL] then
                         (case loads e body of Some v \<Rightarrow> v | None \<Rightarrow> PStr body)
                       else PStr body)
                in case py_int (rstrip_nl status) of
                     None \<Rightarrow> Inl ValueError
                   | Some n \<Rightarrow>
                       Inr \<lparr>x_method = rstrip_nl method, x_url = rstrip_nl url,
                            x_params = rstrip_nl params, x_body = rstrip_val deserialized,
                            x_status = n, x_response = rstrip_nl response\<rparr>))
      | _ \<Rightarrow> Inl ValueError))"

text \<open>What one \<^verbatim>\<open>next()\<close> of the generator does: it yields a dict, ends, or raises.\<close>

datatype pulled = Yielded exchange | Stopped | Raised exn

text \<open>The loop of \<^verbatim>\<open>create_replay_iterator\<close> from the point where it is resumed, over the
  lines the handle has not given out yet; with the outcome it returns the lines left.\<close>

fun create_replay_iterator :: "env \<Rightarrow> string list \<Rightarrow> string list \<Rightarrow> string list \<Rightarrow> pulled \<times> string list" where
  "create_replay_iterator e req resp [] = (Stopped, [])"
| "create_replay_iterator e req resp (line # rest) =
     (if line = END_MARK then
        (case get_whole_request_info e req resp of
           Inl x \<Rightarrow> (Raised x, rest)
         | Inr d \<Rightarrow> (Yielded d, rest))
      else if startswith line IN_MARK then create_replay_iterator e (req @ [drop 3 line]) resp rest
      else if startswith line OUT_MARK then create_replay_iterator e req (resp @ [drop 3 line]) rest
      else create_replay_iterator e req resp rest)"

text \<open>
  The transport in replay mode: the text behind its handle (\<open>None\<close>: \<^verbatim>\<open>self.recfile\<close> is
  \<^verbatim>\<open>None\<close>), the lines after the handle's position, whether the generator has finished
  (a generator that ended or raised only raises \<^verbatim>\<open>StopIteration\<close> from then on), the
  calls made to the connection, and what \<^verbatim>\<open>logger.error\<close> was given.
\<close>

record replay_transport =
  rep_recfile :: "string option"
  rep_pending :: "string list"
  rep_done :: bool
  rep_calls :: "request list"
  rep_log :: "(pyval \<times> pyval) list"

definition replay_iterator_next :: "env \<Rightarrow> replay_transport \<Rightarrow> pulled \<times> replay_transport" where
  "replay_iterator_next e t =
     (if rep_done t then (Stopped, t)
      else
        (case create_replay_iterator e [] [] (rep_pending t) of
           (Yielded d, rest) \<Rightarrow> (Yielded d, t\<lparr>rep_pending := rest\<rparr>)
         | (r, rest) \<Rightarrow> (r, t\<lparr>rep_pending := rest, rep_done := True\<rparr>)))"

definition reset_replay_log :: "replay_transport \<Rightarrow> exn + replay_transport" where
  "reset_replay_log t =
     (case rep_recfile t of
        None \<Rightarrow> Inl AttributeError
      | Some text \<Rightarrow> Inr (t\<lparr>rep_pending := file_lines text, rep_done := False\<rparr>))"

definition replay_prepare_output_file :: "os \<Rightarrow> string recfile_arg \<Rightarrow> exn + string option" where
  "replay_prepare_output_file fs path =
     (case path of
        ArgPath p \<Rightarrow>
          if p \<noteq> [] then
            (case files fs p of None \<Rightarrow> Inl IOError | Some text \<Rightarrow> Inr (Some text))
          else Inr None
      | ArgNone \<Rightarrow> Inr None
      | ArgHandle h \<Rightarrow> Inr (Some h))"

definition replay_init :: "os \<Rightarrow> string recfile_arg option \<Rightarrow> exn + replay_transport" where
  "replay_init fs kw =
     (case replay_prepare_output_file fs (pop_recfile kw) of
        Inl x \<Rightarrow> Inl x
      | Inr rf \<Rightarrow>
          reset_replay_log
            \<lparr>rep_recfile = rf, rep_pending = [], rep_done = True, rep_calls = [], rep_log = []\<rparr>)"

datatype field = Method | Url | Params | Body

definition replay_field :: "exchange \<Rightarrow> field \<Rightarrow> pyval" where
  "replay_field d k =
     (case k of
        Method \<Rightarrow> PStr (x_method d)
      | Url \<Rightarrow> PStr (x_url d)
      | Params \<Rightarrow> PStr (x_params d)
      | Body \<Rightarrow> x_body d)"

text \<open>\<^verbatim>\<open>check_match\<close> over \<^verbatim>\<open>current.items()\<close>: the verdict, and the pair given to
  \<^verbatim>\<open>logger.error\<close>, if any.\<close>

fun check_match :: "exchange \<Rightarrow> (field \<times> pyval) list \<Rightarrow> bool \<times> (pyval \<times> pyval) list" where
  "check_match replay [] = (True, [])"
| "check_match replay ((key, v) # items) =
     (if v \<noteq> replay_field replay key then (False, [(v, replay_field replay key)])
      else check_match replay items)"

text \<open>\<^verbatim>\<open>body if body else '-'\<close>.\<close>

definition current_body :: "pyval \<Rightarrow> pyval" where
  "current_body body = (if truthy body then body else PStr ''-'')"

text \<open>The dict \<^verbatim>\<open>current\<close> as the list of its items, in the order the source writes the
  keys. The order in which Python yields them decides only which differing pair is logged
  when several fields differ, never the verdict.\<close>

definition current_request :: "env \<Rightarrow> string \<Rightarrow> string \<Rightarrow> params \<Rightarrow> pyval \<Rightarrow> (field \<times> pyval) list" where
  "current_request e method url params body =
     [(Method, PStr method), (Url, PStr url), (Params, PStr (params_token e params)),
      (Body, current_body body)]"

definition get_next_replay ::
  "env \<Rightarrow> replay_transport \<Rightarrow> string \<Rightarrow> string \<Rightarrow> params \<Rightarrow> pyval \<Rightarrow>
     (exn + int \<times> pyval) \<times> replay_transport" where
  "get_next_replay e t method url params body =
     (case replay_iterator_next e t of
        (Stopped, t1) \<Rightarrow> (Inl ReplayLogExceededError, t1)
      | (Raised x, t1) \<Rightarrow> (Inl (ReplayFileParseError x), t1)
      | (Yielded d, t1) \<Rightarrow>
          (case check_match d (current_request e method url params body) of
             (False, msgs) \<Rightarrow> (Inl RequestMatchError, t1\<lparr>rep_log := rep_log t1 @ msgs\<rparr>)
           | (True, msgs) \<Rightarrow>
               (case loads e (x_response d) of
                  None \<Rightarrow> (Inl SerializationError, t1)
                | Some v \<Rightarrow> (Inr (x_status d, v), t1))))"

text \<open>The body as \<^verbatim>\<open>ReplayTransport.perform_request\<close> hands it on: serialized, then
  deserialized when that works.\<close>

definition normalize_body :: "env \<Rightarrow> string \<Rightarrow> pyval" where
  "normalize_body e s =
     (if s \<noteq> [] then (case loads e s of Some v \<Rightarrow> v | None \<Rightarrow> PStr s) else PStr s)"

definition replay_perform_request ::
  "env \<Rightarrow> replay_transport \<Rightarrow> string \<Rightarrow> string \<Rightarrow> params \<Rightarrow> pyval \<Rightarrow>
     (exn + int \<times> pyval) \<times> replay_transport" where
  "replay_perform_request e t method url params body =
     (case dumps e body of
        None \<Rightarrow> (Inl SerializationError, t)
      | Some s \<Rightarrow>
          (case get_next_replay e t method url params (normalize_body e s) of
             (Inl x, t1) \<Rightarrow> (Inl x, t1)
           | (Inr (status, data), t1) \<Rightarrow>
               if \<not> (200 \<le> status \<and> status < 300) then (Inl (HostError status data), t1)
               else (Inr (status, data), t1)))"

section \<open>Runs, records of a transcript, and a sample configuration\<close>

text \<open>\<open>n\<close> successive \<^verbatim>\<open>next()\<close> calls on the replay iterator.\<close>

fun pull_n :: "env \<Rightarrow> nat \<Rightarrow> replay_transport \<Rightarrow> pulled list \<times> replay_transport" where
  "pull_n e 0 t = ([], t)"
| "pull_n e (Suc n) t =
     (case replay_iterator_next e t of
        (r, t1) \<Rightarrow> (case pull_n e n t1 of (rs, t2) \<Rightarrow> (r # rs, t2)))"

text \<open>A sequence of calls of \<^verbatim>\<open>ReplayTransport.perform_request\<close>, with what each gave.\<close>

fun replay_run ::
  "env \<Rightarrow> replay_transport \<Rightarrow> request list \<Rightarrow> (exn + int \<times> pyval) list \<times> replay_transport" where
  "replay_run e t [] = ([], t)"
| "replay_run e t ((method, url, params, body) # reqs) =
     (case replay_perform_request e t method url params body of
        (r, t1) \<Rightarrow> (case replay_run e t1 reqs of (rs, t2) \<Rightarrow> (r # rs, t2)))"

text \<open>The lines of one record of a transcript (all but its end mark), as the iterator
  sorts them into its two buffers.\<close>

definition req_lines :: "string list \<Rightarrow> string list" where
  "req_lines ls = map (drop 3) (filter (\<lambda>l. startswith l IN_MARK) ls)"

definition resp_lines :: "string list \<Rightarrow> string list" where
  "resp_lines ls = map (drop 3) (filter (\<lambda>l. startswith l OUT_MARK) ls)"

definition decode_record :: "env \<Rightarrow> string list \<Rightarrow> exn + exchange" where
  "decode_record e ls = get_whole_request_info e (req_lines ls) (resp_lines ls)"

definition transcript_lines :: "string list list \<Rightarrow> string list" where
  "transcript_lines records = concat (map (\<lambda>ls. ls @ [END_MARK]) records)"

definition unlines :: "string list \<Rightarrow> string" where
  "unlines ls = concat (map (\<lambda>l. l @ [NL]) ls)"

text \<open>
  A configuration to run the transports on. \<open>sample_loads\<close> and \<open>sample_dumps\<close> are the
  JSON serializer of the host library on the documents the test suite uses: text passes
  \<^verbatim>\<open>dumps\<close> unchanged, whitespace between tokens is ignored by \<^verbatim>\<open>loads\<close>, and text that
  is no JSON document (such as \<^verbatim>\<open>-\<close>) raises. \<open>sample_urlencode\<close> joins \<^verbatim>\<open>key=value\<close>
  pairs with \<^verbatim>\<open>&\<close>.
\<close>

definition sample_loads :: "string \<Rightarrow> pyval option" where
  \<open>sample_loads s =
     (let t = filter (\<lambda>c. \<not> is_space c) s in
      if t = ''{"key":"value"}'' then Some (PDict [(''key'', PStr ''value'')])
      else if t = ''{"key":"value2"}'' then Some (PDict [(''key'', PStr ''value2'')])
      else if t = ''{"req":"body"}'' then Some (PDict [(''req'', PStr ''body'')])
      else if t = ''{"error":"missing"}'' then Some (PDict [(''error'', PStr ''missing'')])
      else if t = ''{}'' then Some (PDict [])
      else if t = ''null'' then Some PNone
      else None)\<close>

fun sample_dumps :: "pyval \<Rightarrow> string option" where
  \<open>sample_dumps (PStr s) = Some s\<close>
| \<open>sample_dumps PNone = Some ''null''\<close>
| \<open>sample_dumps (PDict kvs) =
     (if kvs = [] then Some ''{}''
      else if kvs = [(''key'', PStr ''value'')] then Some ''{"key": "value"}''
      else if kvs = [(''key'', PStr ''value2'')] then Some ''{"key": "value2"}''
      else if kvs = [(''req'', PStr ''body'')] then Some ''{"req": "body"}''
      else if kvs = [(''error'', PStr ''missing'')] then Some ''{"error": "missing"}''
      else None)\<close>
| \<open>sample_dumps v = None\<close>

definition sample_urlencode :: "(string \<times> string) list \<Rightarrow> string" where
  "sample_urlencode ps = join_str ''&'' (map (\<lambda>(k, v). k @ ''='' @ v) ps)"

definition sample_env :: env where
  "sample_env = \<lparr>dumps = sample_dumps, loads = sample_loads, urlencode = sample_urlencode\<rparr>"

text \<open>\<^verbatim>\<open>IN_CONTENTS\<close> of the test suite.\<close>

definition IN_CONTENTS :: string where
  \<open>IN_CONTENTS = unlines
     [''#> GET /myindex -'',
      ''#> -'',
      ''#< 200'',
      ''#< {"key": "value"}'',
      ''##'',
      ''#> GET /myindex2 -'',
      ''#> {"req": "body"}'',
      ''#< 200'',
      ''#< {"key": "value2"}'',
      ''##'',
      []]\<close>

text \<open>The transport that \<^verbatim>\<open>ReplayTransport([{}], recfile=StringIO(text))\<close> builds.\<close>

definition replay_on :: "string \<Rightarrow> replay_transport" where
  "replay_on text =
     \<lparr>rep_recfile = Some text, rep_pending = file_lines text, rep_done = False,
      rep_calls = [], rep_log = []\<rparr>"

definition new_file :: wfile where
  "new_file = \<lparr>written = [], closed = False\<rparr>"

section \<open>Evaluation rules\<close>

lemmas string_defs =
  NL_def IN_MARK_def OUT_MARK_def END_MARK_def startswith_def endswith_def rstrip_nl_def
  file_lines_def unlines_def is_space_def strip_ws_def py_int_def py_nat_def is_digit_def
  str_int_def digit_char_def digit_val_def str_nat.simps

lemmas record_defs =
  params_token_def out_body_def format_request_def format_response_def write_file_def
  flush_file_def store_exchange_def record_exchange_def record_perform_request_def
  record_prepare_output_file_def record_init_def pop_recfile_def new_file_def

lemmas replay_defs =
  get_whole_request_info_def replay_iterator_next_def reset_replay_log_def
  replay_prepare_output_file_def replay_init_def replay_field_def current_body_def
  current_request_def get_next_replay_def normalize_body_def replay_perform_request_def
  req_lines_def resp_lines_def decode_record_def transcript_lines_def replay_on_def

lemmas sample_defs =
  sample_loads_def sample_urlencode_def sample_env_def IN_CONTENTS_def

section \<open>Record mode: the caller sees the live call's outcome\<close>

lemma store_exchange_closed:
  "closed f \<Longrightarrow> snd (store_exchange e f method url params body status data) \<noteq> None"
  by (simp add: store_exchange_def write_file_def split: sum.splits)

lemma store_exchange_unserializable:
  "dumps e data = None \<Longrightarrow>
   snd (store_exchange e f method url params body status data) \<noteq> None"
  by (simp add: store_exchange_def format_response_def split: sum.splits)

text \<open>
  C7. In record mode the caller observes exactly the outcome of the real call, the tuple
  it returned or the exception it raised, whatever the logging step does: a serializer
  that raises and a handle that cannot be written are both among the \<open>e\<close> and \<open>t\<close> the
  statement ranges over. The call is handed to the live service once.
\<close>

theorem record_perform_request_outcome:
  "fst (record_perform_request e live t method url params body)
     = live (method, url, params, body)
   \<and> rec_calls (snd (record_perform_request e live t method url params body))
     = rec_calls t @ [(method, url, params, body)]"
proof -
  have calls: "rec_calls (record_exchange e t' m u p b s d) = rec_calls t'"
    for t' m u p b s d
    by (simp add: record_exchange_def split: option.splits prod.splits)
  show ?thesis
    by (simp add: record_perform_request_def Let_def calls
        split: sum.splits prod.splits exn.splits)
qed

section \<open>Construction\<close>

text \<open>
  C10. A \<^verbatim>\<open>ReplayTransport\<close> built with the \<^verbatim>\<open>recfile\<close> option absent, \<^verbatim>\<open>None\<close> or the
  empty string raises in its constructor (\<^verbatim>\<open>seek\<close> on \<^verbatim>\<open>None\<close>), so no call can be made
  on it; a \<^verbatim>\<open>RecordTransport\<close> built the same way is constructed, has no log store, and
  passes calls through.
\<close>

theorem replay_init_without_recfile:
  "replay_init fs None = Inl AttributeError
   \<and> replay_init fs (Some ArgNone) = Inl AttributeError
   \<and> replay_init fs (Some (ArgPath [])) = Inl AttributeError
   \<and> record_init fs None = Inr \<lparr>rec_recfile = None, rec_calls = [], rec_diag = []\<rparr>
   \<and> record_init fs (Some ArgNone) = Inr \<lparr>rec_recfile = None, rec_calls = [], rec_diag = []\<rparr>
   \<and> record_init fs (Some (ArgPath [])) = Inr \<lparr>rec_recfile = None, rec_calls = [], rec_diag = []\<rparr>
   \<and> record_perform_request e live \<lparr>rec_recfile = None, rec_calls = [], rec_diag = []\<rparr>
         method url params body
       = (live (method, url, params, body),
          \<lparr>rec_recfile = None, rec_calls = [(method, url, params, body)], rec_diag = []\<rparr>)"
  by (simp add: replay_init_def replay_prepare_output_file_def pop_recfile_def
      reset_replay_log_def record_init_def record_prepare_output_file_def
      record_perform_request_def record_exchange_def Let_def
      split: sum.splits prod.splits exn.splits)

section \<open>The match verifier\<close>

lemma check_match_all:
  "fst (check_match d items) = list_all (\<lambda>(k, v). v = replay_field d k) items"
  by (induction items) (auto split: if_splits)

lemma check_match_first:
  "list_all (\<lambda>(k, v). v = replay_field d k) pre \<Longrightarrow> v \<noteq> replay_field d k \<Longrightarrow>
   check_match d (pre @ (k, v) # post) = (False, [(v, replay_field d k)])"
  by (induction pre) auto

lemma check_match_true_log: "fst (check_match d items) \<Longrightarrow> snd (check_match d items) = []"
  by (induction items) (auto split: if_splits)

lemma check_match_current:
  "fst (check_match d (current_request e method url params body)) =
     (method = x_method d \<and> url = x_url d \<and> params_token e params = x_params d
      \<and> current_body body = x_body d)"
  by (auto simp: check_match_all current_request_def replay_field_def)

section \<open>The replay iterator over the records of a transcript\<close>

lemma startswith_disjoint: "startswith l IN_MARK \<Longrightarrow> \<not> startswith l OUT_MARK"
  by (auto simp: startswith_def IN_MARK_def OUT_MARK_def)

lemma create_replay_iterator_record:
  "END_MARK \<notin> set ls \<Longrightarrow>
   create_replay_iterator e req resp (ls @ END_MARK # rest) =
     (case get_whole_request_info e (req @ req_lines ls) (resp @ resp_lines ls) of
        Inl x \<Rightarrow> (Raised x, rest)
      | Inr d \<Rightarrow> (Yielded d, rest))"
proof (induction ls arbitrary: req resp)
  case Nil
  then show ?case by (simp add: req_lines_def resp_lines_def)
next
  case (Cons l ls)
  then show ?case
    using startswith_disjoint[of l]
    by (auto simp: req_lines_def resp_lines_def)
qed

lemma create_replay_iterator_no_end:
  "END_MARK \<notin> set ls \<Longrightarrow> create_replay_iterator e req resp ls = (Stopped, [])"
  by (induction ls arbitrary: req resp) auto

lemma create_replay_iterator_skip:
  "fst (create_replay_iterator e req resp ls) =
   fst (create_replay_iterator e req resp
     (filter (\<lambda>l. l = END_MARK \<or> startswith l IN_MARK \<or> startswith l OUT_MARK) ls))"
  by (induction ls arbitrary: req resp) (auto split: sum.splits)

lemma iterator_next_record:
  assumes "\<not> rep_done t" and "rep_pending t = ls @ END_MARK # rest" and "END_MARK \<notin> set ls"
  shows "replay_iterator_next e t =
     (case decode_record e ls of
        Inl x \<Rightarrow> (Raised x, t\<lparr>rep_pending := rest, rep_done := True\<rparr>)
      | Inr d \<Rightarrow> (Yielded d, t\<lparr>rep_pending := rest\<rparr>))"
  using assms create_replay_iterator_record[of ls e "[]" "[]" rest]
  by (simp add: replay_iterator_next_def decode_record_def split: sum.splits)

lemma iterator_next_exhausted:
  assumes "END_MARK \<notin> set (rep_pending t)"
  shows "fst (replay_iterator_next e t) = Stopped"
  using assms create_replay_iterator_no_end[of "rep_pending t" e "[]" "[]"]
  by (simp add: replay_iterator_next_def)

lemma get_next_replay_matched:
  assumes "\<not> rep_done t" and "rep_pending t = ls @ END_MARK # rest" and "END_MARK \<notin> set ls"
    and "decode_record e ls = Inr d"
    and "method = x_method d" and "url = x_url d" and "params_token e params = x_params d"
    and "current_body body = x_body d"
    and "loads e (x_response d) = Some v"
  shows "get_next_replay e t method url params body
           = (Inr (x_status d, v), t\<lparr>rep_pending := rest\<rparr>)"
proof -
  have next_d: "replay_iterator_next e t = (Yielded d, t\<lparr>rep_pending := rest\<rparr>)"
    using iterator_next_record[OF assms(1,2,3), of e] assms(4) by simp
  have "fst (check_match d (current_request e method url params body))"
    using assms(5,6,7,8) by (simp add: check_match_current)
  then obtain msgs where "check_match d (current_request e method url params body) = (True, msgs)"
    by (cases "check_match d (current_request e method url params body)") auto
  then show ?thesis
    using next_d assms(9) by (simp add: get_next_replay_def)
qed

lemma perform_request_matched:
  assumes "\<not> rep_done t" and "rep_pending t = ls @ END_MARK # rest" and "END_MARK \<notin> set ls"
    and "decode_record e ls = Inr d"
    and "dumps e body = Some s"
    and "method = x_method d" and "url = x_url d" and "params_token e params = x_params d"
    and "current_body (normalize_body e s) = x_body d"
    and "loads e (x_response d) = Some v"
  shows "replay_perform_request e t method url params body
           = (if 200 \<le> x_status d \<and> x_status d < 300 then Inr (x_status d, v)
              else Inl (HostError (x_status d) v),
              t\<lparr>rep_pending := rest\<rparr>)"
  using get_next_replay_matched[OF assms(1,2,3,4,6,7,8,9,10)] assms(5)
  by (simp add: replay_perform_request_def)

lemma iterator_next_calls: "rep_calls (snd (replay_iterator_next e t)) = rep_calls t"
  by (simp add: replay_iterator_next_def split: prod.splits pulled.splits)

lemma get_next_replay_calls:
  "rep_calls (snd (get_next_replay e t method url params body)) = rep_calls t"
  using iterator_next_calls[of e t]
  by (auto simp: get_next_replay_def split: prod.splits pulled.splits bool.splits option.splits)

lemma perform_request_calls:
  "rep_calls (snd (replay_perform_request e t m u params body)) = rep_calls t"
proof (cases "dumps e body")
  case None
  then show ?thesis by (simp add: replay_perform_request_def)
next
  case (Some s)
  then show ?thesis
    using get_next_replay_calls[of e t m u params "normalize_body e s"]
    by (auto simp: replay_perform_request_def split: prod.splits sum.splits)
qed

section \<open>Replaying a recorded exchange\<close>

lemma in_contents_lines:
  \<open>file_lines IN_CONTENTS =
     [''#> GET /myindex -\<newline>'', ''#> -\<newline>'', ''#< 200\<newline>'', ''#< {"key": "value"}\<newline>''] @ END_MARK #
     [''#> GET /myindex2 -\<newline>'', ''#> {"req": "body"}\<newline>'', ''#< 200\<newline>'',
      ''#< {"key": "value2"}\<newline>'', ''##\<newline>'', ''\<newline>'']\<close>
  by (simp add: IN_CONTENTS_def unlines_def file_lines_def NL_def END_MARK_def)

lemma sample_first_record:
  \<open>decode_record sample_env
     [''#> GET /myindex -\<newline>'', ''#> -\<newline>'', ''#< 200\<newline>'', ''#< {"key": "value"}\<newline>'']
   = Inr \<lparr>x_method = ''GET'', x_url = ''/myindex'', x_params = ''-'', x_body = PStr ''-'',
          x_status = 200, x_response = ''{"key": "value"}''\<rparr>\<close>
  by (simp add: replay_defs string_defs sample_defs)

lemma sample_second_record:
  \<open>decode_record sample_env
     [''#> GET /myindex2 -\<newline>'', ''#> {"req": "body"}\<newline>'', ''#< 200\<newline>'',
      ''#< {"key": "value2"}\<newline>'']
   = Inr \<lparr>x_method = ''GET'', x_url = ''/myindex2'', x_params = ''-'',
          x_body = PDict [(''req'', PStr ''body'')],
          x_status = 200, x_response = ''{"key": "value2"}''\<rparr>\<close>
  by (simp add: replay_defs string_defs sample_defs)


text \<open>
  C1. When the next record of the transcript decodes to an exchange with a 2xx status whose
  request fields equal those of the incoming call, and whose response text deserializes
  to \<open>v\<close>, \<^verbatim>\<open>ReplayTransport.perform_request\<close> returns the recorded status with \<open>v\<close>, moves
  the cursor past the record, and makes no call to the connection.
\<close>

theorem replay_returns_recorded:
  assumes "\<not> rep_done t" and "rep_pending t = ls @ END_MARK # rest" and "END_MARK \<notin> set ls"
    and "decode_record e ls = Inr d"
    and "dumps e body = Some s"
    and "method = x_method d" and "url = x_url d" and "params_token e params = x_params d"
    and "current_body (normalize_body e s) = x_body d"
    and "200 \<le> x_status d" and "x_status d < 300"
    and "loads e (x_response d) = Some v"
  shows "replay_perform_request e t method url params body
           = (Inr (x_status d, v), t\<lparr>rep_pending := rest\<rparr>)
         \<and> rep_calls (snd (replay_perform_request e t method url params body)) = rep_calls t"
  using perform_request_matched[OF assms(1,2,3,4,5,6,7,8,9,12)] assms(10,11)
  by simp

theorem replay_returns_recorded_witness:
  \<open>replay_perform_request sample_env (replay_on IN_CONTENTS) ''GET'' ''/myindex'' None PNone
     = (Inr (200, PDict [(''key'', PStr ''value'')]),
        (replay_on IN_CONTENTS)\<lparr>rep_pending :=
          [''#> GET /myindex2 -\<newline>'', ''#> {"req": "body"}\<newline>'', ''#< 200\<newline>'',
           ''#< {"key": "value2"}\<newline>'', ''##\<newline>'', ''\<newline>'']\<rparr>)
   \<and> rep_calls (snd (replay_perform_request sample_env (replay_on IN_CONTENTS)
          ''GET'' ''/myindex'' None PNone)) = []\<close>
proof -
  have h1: "\<not> rep_done (replay_on IN_CONTENTS)"
    by (simp add: replay_on_def)
  have h2: \<open>rep_pending (replay_on IN_CONTENTS) =
     [''#> GET /myindex -\<newline>'', ''#> -\<newline>'', ''#< 200\<newline>'', ''#< {"key": "value"}\<newline>''] @ END_MARK #
     [''#> GET /myindex2 -\<newline>'', ''#> {"req": "body"}\<newline>'', ''#< 200\<newline>'',
      ''#< {"key": "value2"}\<newline>'', ''##\<newline>'', ''\<newline>'']\<close>
    by (simp add: replay_on_def in_contents_lines)
  have h3: \<open>END_MARK \<notin> set [''#> GET /myindex -\<newline>'', ''#> -\<newline>'', ''#< 200\<newline>'',
      ''#< {"key": "value"}\<newline>'']\<close>
    by (simp add: END_MARK_def NL_def)
  have h5: "dumps sample_env PNone = Some ''null''"
    by (simp add: sample_env_def)
  have h9: "current_body (normalize_body sample_env ''null'') = PStr ''-''"
    by (simp add: current_body_def normalize_body_def sample_defs string_defs)
  have h12: \<open>loads sample_env ''{"key": "value"}'' = Some (PDict [(''key'', PStr ''value'')])\<close>
    by (simp add: sample_defs string_defs)
  show ?thesis
    using replay_returns_recorded[OF h1 h2 h3 sample_first_record h5, of "''GET''" "''/myindex''"
        None "PDict [(''key'', PStr ''value'')]"] h9 h12
    by (simp add: params_token_def replay_on_def)
qed

text \<open>
  C8. For a matched exchange whose response text deserializes to \<open>v\<close>: a stored status
  outside 200..299 makes \<^verbatim>\<open>ReplayTransport.perform_request\<close> raise what the connection's
  \<^verbatim>\<open>_raise_error\<close> raises for the stored status and \<open>v\<close>, instead of returning the tuple; a
  status within 200..299 returns the tuple.
\<close>

theorem replay_status_outside_2xx_raises:
  assumes "\<not> rep_done t" and "rep_pending t = ls @ END_MARK # rest" and "END_MARK \<notin> set ls"
    and "decode_record e ls = Inr d"
    and "dumps e body = Some s"
    and "method = x_method d" and "url = x_url d" and "params_token e params = x_params d"
    and "current_body (normalize_body e s) = x_body d"
    and "loads e (x_response d) = Some v"
  shows "fst (replay_perform_request e t method url params body)
           = (if 200 \<le> x_status d \<and> x_status d < 300 then Inr (x_status d, v)
              else Inl (HostError (x_status d) v))"
  using perform_request_matched[OF assms] by simp

theorem replay_status_outside_2xx_raises_witness:
  \<open>fst (replay_perform_request sample_env
      (replay_on (unlines [''#> GET /missing -'', ''#> -'', ''#< 404'', ''#< {"error": "missing"}'', ''##'']))
      ''GET'' ''/missing'' None PNone)
   = Inl (HostError 404 (PDict [(''error'', PStr ''missing'')]))\<close>
proof -
  let ?text = \<open>unlines [''#> GET /missing -'', ''#> -'', ''#< 404'', ''#< {"error": "missing"}'', ''##'']\<close>
  let ?ls = \<open>[''#> GET /missing -\<newline>'', ''#> -\<newline>'', ''#< 404\<newline>'', ''#< {"error": "missing"}\<newline>'']\<close>
  have h1: "\<not> rep_done (replay_on ?text)"
    by (simp add: replay_on_def)
  have h2: "rep_pending (replay_on ?text) = ?ls @ END_MARK # []"
    by (simp add: replay_on_def unlines_def file_lines_def NL_def END_MARK_def)
  have h3: "END_MARK \<notin> set ?ls"
    by (simp add: END_MARK_def NL_def)
  have h4: \<open>decode_record sample_env ?ls =
      Inr \<lparr>x_method = ''GET'', x_url = ''/missing'', x_params = ''-'', x_body = PStr ''-'',
           x_status = 404, x_response = ''{"error": "missing"}''\<rparr>\<close>
    by (simp add: replay_defs string_defs sample_defs)
  have h5: "dumps sample_env PNone = Some ''null''"
    by (simp add: sample_env_def)
  have h9: "current_body (normalize_body sample_env ''null'') = PStr ''-''"
    by (simp add: current_body_def normalize_body_def sample_defs string_defs)
  have h10: \<open>loads sample_env ''{"error": "missing"}'' = Some (PDict [(''error'', PStr ''missing'')])\<close>
    by (simp add: sample_defs string_defs)
  show ?thesis
    using replay_status_outside_2xx_raises[OF h1 h2 h3 h4 h5, of "''GET''" "''/missing''" None
        "PDict [(''error'', PStr ''missing'')]"] h9 h10
    by (simp add: params_token_def)
qed

section \<open>Reading a transcript through\<close>

lemma pull_n_records:
  assumes "list_all2 (\<lambda>ls d. END_MARK \<notin> set ls \<and> decode_record e ls = Inr d) records ds"
    and "\<not> rep_done t" and "rep_pending t = transcript_lines records @ tail"
  shows "pull_n e (length records) t = (map Yielded ds, t\<lparr>rep_pending := tail\<rparr>)"
  using assms
proof (induction records ds arbitrary: t rule: list_all2_induct)
  case Nil
  then have "t\<lparr>rep_pending := tail\<rparr> = t"
    by (simp add: transcript_lines_def)
  then show ?case by simp
next
  case (Cons ls records d ds)
  have pending: "rep_pending t = ls @ END_MARK # (transcript_lines records @ tail)"
    using Cons.prems(2) by (simp add: transcript_lines_def)
  have step: "replay_iterator_next e t
      = (Yielded d, t\<lparr>rep_pending := transcript_lines records @ tail\<rparr>)"
    using iterator_next_record[OF Cons.prems(1) pending, of e] Cons.hyps(1) by simp
  have rest: "pull_n e (length records) (t\<lparr>rep_pending := transcript_lines records @ tail\<rparr>)
      = (map Yielded ds, t\<lparr>rep_pending := tail\<rparr>)"
    using Cons.IH[of "t\<lparr>rep_pending := transcript_lines records @ tail\<rparr>"] Cons.prems(1)
    by simp
  show ?case
    by (simp add: step rest)
qed

lemma get_next_replay_exhausted:
  assumes "END_MARK \<notin> set (rep_pending t)"
  shows "fst (get_next_replay e t m u params body) = Inl ReplayLogExceededError"
  using iterator_next_exhausted[OF assms, of e]
  by (cases "replay_iterator_next e t") (simp add: get_next_replay_def)

text \<open>
  C3. A transcript whose lines are \<open>N\<close> records, each decoding to an exchange, followed by
  lines that hold no end mark: the cursor of a freshly reset transport yields exactly
  these \<open>N\<close> exchanges in their order, and the next \<^verbatim>\<open>get_next_replay\<close>, whatever the
  request, raises \<^verbatim>\<open>ReplayLogExceededError\<close>.
\<close>

theorem replay_yields_all_then_exceeded:
  assumes "rep_recfile t0 = Some text"
    and "file_lines text = transcript_lines records @ tail" and "END_MARK \<notin> set tail"
    and "list_all2 (\<lambda>ls d. END_MARK \<notin> set ls \<and> decode_record e ls = Inr d) records ds"
  shows "\<exists>t. reset_replay_log t0 = Inr t
           \<and> fst (pull_n e (length records) t) = map Yielded ds
           \<and> length ds = length records
           \<and> fst (get_next_replay e (snd (pull_n e (length records) t)) m u params body)
               = Inl ReplayLogExceededError"
proof -
  let ?t = "t0\<lparr>rep_pending := file_lines text, rep_done := False\<rparr>"
  have reset: "reset_replay_log t0 = Inr ?t"
    using assms(1) by (simp add: reset_replay_log_def)
  have all: "pull_n e (length records) ?t = (map Yielded ds, ?t\<lparr>rep_pending := tail\<rparr>)"
    using pull_n_records[OF assms(4), of ?t tail] assms(2) by simp
  have "fst (get_next_replay e (?t\<lparr>rep_pending := tail\<rparr>) m u params body)
      = Inl ReplayLogExceededError"
    using get_next_replay_exhausted[of "?t\<lparr>rep_pending := tail\<rparr>" e] assms(3) by simp
  then show ?thesis
    using reset all list_all2_lengthD[OF assms(4)] by simp
qed

theorem replay_yields_all_then_exceeded_witness:
  \<open>\<exists>t. reset_replay_log (replay_on IN_CONTENTS) = Inr t
     \<and> fst (pull_n sample_env 2 t) =
         [Yielded \<lparr>x_method = ''GET'', x_url = ''/myindex'', x_params = ''-'', x_body = PStr ''-'',
                   x_status = 200, x_response = ''{"key": "value"}''\<rparr>,
          Yielded \<lparr>x_method = ''GET'', x_url = ''/myindex2'', x_params = ''-'',
                   x_body = PDict [(''req'', PStr ''body'')],
                   x_status = 200, x_response = ''{"key": "value2"}''\<rparr>]
     \<and> fst (get_next_replay sample_env (snd (pull_n sample_env 2 t)) ''GET'' ''/myindex'' None PNone)
         = Inl ReplayLogExceededError\<close>
proof -
  let ?r1 = \<open>[''#> GET /myindex -\<newline>'', ''#> -\<newline>'', ''#< 200\<newline>'', ''#< {"key": "value"}\<newline>'']\<close>
  let ?r2 = \<open>[''#> GET /myindex2 -\<newline>'', ''#> {"req": "body"}\<newline>'', ''#< 200\<newline>'',
      ''#< {"key": "value2"}\<newline>'']\<close>
  have h1: "rep_recfile (replay_on IN_CONTENTS) = Some IN_CONTENTS"
    by (simp add: replay_on_def)
  have h2: \<open>file_lines IN_CONTENTS = transcript_lines [?r1, ?r2] @ [''\<newline>'']\<close>
    by (simp add: in_contents_lines transcript_lines_def END_MARK_def NL_def)
  have h3: \<open>END_MARK \<notin> set [''\<newline>'']\<close>
    by (simp add: END_MARK_def NL_def)
  have h4: \<open>list_all2 (\<lambda>ls d. END_MARK \<notin> set ls \<and> decode_record sample_env ls = Inr d) [?r1, ?r2]
      [\<lparr>x_method = ''GET'', x_url = ''/myindex'', x_params = ''-'', x_body = PStr ''-'',
         x_status = 200, x_response = ''{"key": "value"}''\<rparr>,
       \<lparr>x_method = ''GET'', x_url = ''/myindex2'', x_params = ''-'',
         x_body = PDict [(''req'', PStr ''body'')],
         x_status = 200, x_response = ''{"key": "value2"}''\<rparr>]\<close>
    by (simp add: sample_first_record sample_second_record) (simp add: END_MARK_def NL_def)
  have len: "length [?r1, ?r2] = 2"
    by simp
  from replay_yields_all_then_exceeded[OF h1 h2 h3 h4, of "''GET''" "''/myindex''" None PNone]
  show ?thesis
    by (simp only: len list.map) blast
qed

section \<open>Malformed records\<close>

lemma header_token_count:
  assumes "length (split_on CHR '' '' header) \<noteq> 3"
  shows "get_whole_request_info e (header # others) resp = Inl ValueError"
proof (cases "split_on CHR '' '' header")
  case Nil
  then show ?thesis by (simp add: get_whole_request_info_def)
next
  case (Cons a as)
  then show ?thesis
    using assms by (auto simp: get_whole_request_info_def split: list.splits)
qed

text \<open>
  C6, as the code has it. A record whose request header does not split at single spaces
  into exactly three tokens makes \<^verbatim>\<open>get_next_replay\<close> raise \<^verbatim>\<open>ReplayFileParseError\<close> around
  the \<^verbatim>\<open>ValueError\<close> when that record is pulled, after which the iterator is finished;
  constructing the transport on any text raises nothing. A line that starts with neither
  marker and is not the end mark is passed over: the iterator gives the same outcome with
  such lines and without them.
\<close>

theorem malformed_header_parse_error:
  assumes "\<not> rep_done t" and "rep_pending t = ls @ END_MARK # rest" and "END_MARK \<notin> set ls"
    and "req_lines ls = header # others"
    and "length (split_on CHR '' '' header) \<noteq> 3"
  shows "get_next_replay e t m u params body
           = (Inl (ReplayFileParseError ValueError), t\<lparr>rep_pending := rest, rep_done := True\<rparr>)
         \<and> replay_init fs (Some (ArgHandle text)) = Inr (replay_on text)
         \<and> fst (create_replay_iterator e req resp lines)
             = fst (create_replay_iterator e req resp
                 (filter (\<lambda>l. l = END_MARK \<or> startswith l IN_MARK \<or> startswith l OUT_MARK) lines))"
proof -
  have "decode_record e ls = Inl ValueError"
    using header_token_count[OF assms(5)] assms(4) by (simp add: decode_record_def)
  then have "replay_iterator_next e t
      = (Raised ValueError, t\<lparr>rep_pending := rest, rep_done := True\<rparr>)"
    using iterator_next_record[OF assms(1,2,3), of e] by simp
  then have first: "get_next_replay e t m u params body
      = (Inl (ReplayFileParseError ValueError), t\<lparr>rep_pending := rest, rep_done := True\<rparr>)"
    by (simp add: get_next_replay_def)
  have second: "replay_init fs (Some (ArgHandle text)) = Inr (replay_on text)"
    by (simp add: replay_init_def replay_prepare_output_file_def pop_recfile_def
        reset_replay_log_def replay_on_def)
  show ?thesis
    using first second create_replay_iterator_skip[of e req resp lines] by simp
qed

theorem malformed_header_parse_error_witness:
  \<open>get_next_replay sample_env (replay_on ''#> some ##< odd but similar \<newline>##\<newline> format'')
       ''GET'' ''/'' None PNone
     = (Inl (ReplayFileParseError ValueError),
        (replay_on ''#> some ##< odd but similar \<newline>##\<newline> format'')
          \<lparr>rep_pending := ['' format''], rep_done := True\<rparr>)\<close>
proof -
  let ?t = \<open>replay_on ''#> some ##< odd but similar \<newline>##\<newline> format''\<close>
  have h1: "\<not> rep_done ?t"
    by (simp add: replay_on_def)
  have h2: \<open>rep_pending ?t = [''#> some ##< odd but similar \<newline>''] @ END_MARK # ['' format'']\<close>
    by (simp add: replay_on_def file_lines_def NL_def END_MARK_def)
  have h3: \<open>END_MARK \<notin> set [''#> some ##< odd but similar \<newline>'']\<close>
    by (simp add: END_MARK_def NL_def)
  have h4: \<open>req_lines [''#> some ##< odd but similar \<newline>''] = [''some ##< odd but similar \<newline>'']\<close>
    by (simp add: req_lines_def startswith_def IN_MARK_def)
  have h5: \<open>length (split_on CHR '' '' ''some ##< odd but similar \<newline>'') \<noteq> 3\<close>
    by simp
  show ?thesis
    using malformed_header_parse_error[OF h1 h2 h3 h4 h5, of sample_env "''GET''" "''/''" None PNone]
    by simp
qed

theorem unmarked_line_counterexample:
  \<open>fst (get_next_replay sample_env
      (replay_on (unlines [''#> GET /myindex -'', ''this line has no marker'', ''#> -'', ''#< 200'',
                           ''#< {"key": "value"}'', ''##'']))
      ''GET'' ''/myindex'' None PNone)
   = Inr (200, PDict [(''key'', PStr ''value'')])\<close>
  by (simp add: replay_defs params_token_def string_defs sample_defs)

section \<open>Resetting the cursor\<close>

lemma iterator_next_cursor:
  assumes "rep_pending a = rep_pending b" and "rep_done a = rep_done b"
  shows "fst (replay_iterator_next e a) = fst (replay_iterator_next e b)
       \<and> rep_pending (snd (replay_iterator_next e a)) = rep_pending (snd (replay_iterator_next e b))
       \<and> rep_done (snd (replay_iterator_next e a)) = rep_done (snd (replay_iterator_next e b))"
  using assms
  by (simp add: replay_iterator_next_def split: prod.splits pulled.splits)

lemma get_next_replay_cursor:
  assumes "rep_pending a = rep_pending b" and "rep_done a = rep_done b"
  shows "fst (get_next_replay e a m u params body) = fst (get_next_replay e b m u params body)
       \<and> rep_pending (snd (get_next_replay e a m u params body))
           = rep_pending (snd (get_next_replay e b m u params body))
       \<and> rep_done (snd (get_next_replay e a m u params body))
           = rep_done (snd (get_next_replay e b m u params body))"
  using iterator_next_cursor[OF assms, of e]
  by (cases "replay_iterator_next e a"; cases "replay_iterator_next e b")
     (auto simp: get_next_replay_def split: pulled.splits prod.splits bool.splits option.splits)

lemma perform_request_cursor:
  assumes "rep_pending a = rep_pending b" and "rep_done a = rep_done b"
  shows "fst (replay_perform_request e a m u params body)
           = fst (replay_perform_request e b m u params body)
       \<and> rep_pending (snd (replay_perform_request e a m u params body))
           = rep_pending (snd (replay_perform_request e b m u params body))
       \<and> rep_done (snd (replay_perform_request e a m u params body))
           = rep_done (snd (replay_perform_request e b m u params body))"
proof (cases "dumps e body")
  case None
  then show ?thesis using assms by (simp add: replay_perform_request_def)
next
  case (Some s)
  show ?thesis
    using get_next_replay_cursor[OF assms, of e m u params "normalize_body e s"] Some
    by (cases "get_next_replay e a m u params (normalize_body e s)";
        cases "get_next_replay e b m u params (normalize_body e s)")
       (auto simp: replay_perform_request_def split: sum.splits prod.splits)
qed

lemma replay_run_cursor:
  assumes "rep_pending a = rep_pending b" and "rep_done a = rep_done b"
  shows "fst (replay_run e a reqs) = fst (replay_run e b reqs)"
  using assms
proof (induction reqs arbitrary: a b)
  case Nil
  then show ?case by simp
next
  case (Cons r reqs)
  obtain m u params body where r: "r = (m, u, params, body)"
    by (cases r) auto
  obtain ra a1 where a1: "replay_perform_request e a m u params body = (ra, a1)"
    by (cases "replay_perform_request e a m u params body") auto
  obtain rb b1 where b1: "replay_perform_request e b m u params body = (rb, b1)"
    by (cases "replay_perform_request e b m u params body") auto
  have same: "ra = rb \<and> rep_pending a1 = rep_pending b1 \<and> rep_done a1 = rep_done b1"
    using perform_request_cursor[OF Cons.prems, of e m u params body] a1 b1 by simp
  then have "fst (replay_run e a1 reqs) = fst (replay_run e b1 reqs)"
    using Cons.IH[of a1 b1] by simp
  then show ?case
    using same by (simp add: r a1 b1 case_prod_beta)
qed

lemma iterator_next_recfile: "rep_recfile (snd (replay_iterator_next e t)) = rep_recfile t"
  by (simp add: replay_iterator_next_def split: prod.splits pulled.splits)

lemma get_next_replay_recfile:
  "rep_recfile (snd (get_next_replay e t m u params body)) = rep_recfile t"
  using iterator_next_recfile[of e t]
  by (auto simp: get_next_replay_def split: prod.splits pulled.splits bool.splits option.splits)

lemma perform_request_recfile:
  "rep_recfile (snd (replay_perform_request e t m u params body)) = rep_recfile t"
proof (cases "dumps e body")
  case None
  then show ?thesis by (simp add: replay_perform_request_def)
next
  case (Some s)
  then show ?thesis
    using get_next_replay_recfile[of e t m u params "normalize_body e s"]
    by (auto simp: replay_perform_request_def split: prod.splits sum.splits)
qed

lemma replay_run_recfile: "rep_recfile (snd (replay_run e t reqs)) = rep_recfile t"
proof (induction reqs arbitrary: t)
  case Nil
  then show ?case by simp
next
  case (Cons r reqs)
  obtain m u params body where r: "r = (m, u, params, body)"
    by (cases r) auto
  obtain r1 t1 where t1: "replay_perform_request e t m u params body = (r1, t1)"
    by (cases "replay_perform_request e t m u params body") auto
  have "rep_recfile t1 = rep_recfile t"
    using perform_request_recfile[of e t m u params body] t1 by simp
  then show ?case
    using Cons.IH[of t1] by (simp add: r t1 case_prod_beta)
qed

text \<open>
  C9. \<^verbatim>\<open>reset_replay_log\<close> is idempotent: a second reset right after the first leaves the
  transport as the first left it. After any sequence of calls played since a reset, another
  reset succeeds, and every sequence of calls played from there gives the same results, in
  the same order, as played right after the first reset.
\<close>

theorem reset_replay_log_idempotent:
  assumes "reset_replay_log t = Inr t0"
  shows "reset_replay_log t0 = Inr t0
       \<and> (\<exists>t1. reset_replay_log (snd (replay_run e t0 played)) = Inr t1
             \<and> fst (replay_run e t1 reqs) = fst (replay_run e t0 reqs))"
proof -
  obtain content where content: "rep_recfile t = Some content"
    and t0: "t0 = t\<lparr>rep_pending := file_lines content, rep_done := False\<rparr>"
    using assms by (auto simp: reset_replay_log_def split: option.splits)
  have again: "reset_replay_log t0 = Inr t0"
    by (simp add: t0 content reset_replay_log_def)
  let ?mid = "snd (replay_run e t0 played)"
  let ?t1 = "?mid\<lparr>rep_pending := file_lines content, rep_done := False\<rparr>"
  have "rep_recfile ?mid = Some content"
    using replay_run_recfile[of e t0 played] by (simp add: t0 content)
  then have reset_mid: "reset_replay_log ?mid = Inr ?t1"
    by (simp add: reset_replay_log_def)
  have "fst (replay_run e ?t1 reqs) = fst (replay_run e t0 reqs)"
    by (rule replay_run_cursor) (simp_all add: t0)
  then show ?thesis
    using again reset_mid by blast
qed

theorem reset_replay_log_idempotent_witness:
  "\<exists>t1. reset_replay_log
          (snd (replay_run sample_env (replay_on IN_CONTENTS) [(''GET'', ''/myindex'', None, PNone)]))
        = Inr t1
      \<and> fst (replay_run sample_env t1 [(''GET'', ''/myindex'', None, PNone)])
        = fst (replay_run sample_env (replay_on IN_CONTENTS) [(''GET'', ''/myindex'', None, PNone)])"
proof -
  have h: "reset_replay_log (replay_on IN_CONTENTS) = Inr (replay_on IN_CONTENTS)"
    by (simp add: reset_replay_log_def replay_on_def)
  show ?thesis
    using reset_replay_log_idempotent[OF h, of sample_env
        "[(''GET'', ''/myindex'', None, PNone)]" "[(''GET'', ''/myindex'', None, PNone)]"]
    by blast
qed

section \<open>Matching\<close>

text \<open>
  C4. \<^verbatim>\<open>check_match\<close> answers true exactly when every item of the comparison record equals
  the recorded field of its key; at the first item that differs it answers false and logs
  that item's value with the recorded one. After the iterator has yielded an exchange,
  \<^verbatim>\<open>get_next_replay\<close> raises \<^verbatim>\<open>RequestMatchError\<close> exactly when the method, the url, the
  params token or the body of the call differs from the recorded one; a different url
  alone is enough.
\<close>

theorem check_match_exact:
  "fst (check_match d items) = list_all (\<lambda>(k, v). v = replay_field d k) items
   \<and> (list_all (\<lambda>(k, v). v = replay_field d k) pre \<and> v \<noteq> replay_field d k
        \<longrightarrow> check_match d (pre @ (k, v) # post) = (False, [(v, replay_field d k)]))
   \<and> (replay_iterator_next e t = (Yielded d, t1) \<longrightarrow>
        (fst (get_next_replay e t m u params body) = Inl RequestMatchError)
          = (\<not> (m = x_method d \<and> u = x_url d \<and> params_token e params = x_params d
                \<and> current_body body = x_body d)))
   \<and> (replay_iterator_next e t = (Yielded d, t1) \<and> u \<noteq> x_url d \<longrightarrow>
        fst (get_next_replay e t m u params body) = Inl RequestMatchError)"
proof -
  have exact: "(fst (get_next_replay e t m u params body) = Inl RequestMatchError)
      = (\<not> (m = x_method d \<and> u = x_url d \<and> params_token e params = x_params d
            \<and> current_body body = x_body d))"
    if "replay_iterator_next e t = (Yielded d, t1)"
  proof (cases "check_match d (current_request e m u params body)")
    case (Pair ok msgs)
    then have "ok = (m = x_method d \<and> u = x_url d \<and> params_token e params = x_params d
        \<and> current_body body = x_body d)"
      using check_match_current[of d e m u params body] by simp
    then show ?thesis
      using that Pair by (auto simp: get_next_replay_def split: option.splits)
  qed
  show ?thesis
    using exact check_match_all[of d items] check_match_first[of d pre v k post] by auto
qed

theorem check_match_exact_witness:
  \<open>fst (get_next_replay sample_env (replay_on IN_CONTENTS) ''GET'' ''/badreq'' None PNone)
     = Inl RequestMatchError
   \<and> check_match
       \<lparr>x_method = ''GET'', x_url = ''/myindex'', x_params = ''-'', x_body = PStr ''-'',
         x_status = 200, x_response = ''{"key": "value"}''\<rparr>
       ([(Method, PStr ''GET'')] @ (Url, PStr ''/badreq'') # [(Params, PStr ''-''), (Body, PStr ''-'')])
     = (False, [(PStr ''/badreq'', PStr ''/myindex'')])\<close>
proof -
  let ?d = \<open>\<lparr>x_method = ''GET'', x_url = ''/myindex'', x_params = ''-'', x_body = PStr ''-'',
         x_status = 200, x_response = ''{"key": "value"}''\<rparr>\<close>
  let ?rest = \<open>[''#> GET /myindex2 -\<newline>'', ''#> {"req": "body"}\<newline>'', ''#< 200\<newline>'',
      ''#< {"key": "value2"}\<newline>'', ''##\<newline>'', ''\<newline>'']\<close>
  have h1: "\<not> rep_done (replay_on IN_CONTENTS)"
    by (simp add: replay_on_def)
  have h2: \<open>rep_pending (replay_on IN_CONTENTS) =
     [''#> GET /myindex -\<newline>'', ''#> -\<newline>'', ''#< 200\<newline>'', ''#< {"key": "value"}\<newline>''] @ END_MARK # ?rest\<close>
    by (simp add: replay_on_def in_contents_lines)
  have h3: \<open>END_MARK \<notin> set [''#> GET /myindex -\<newline>'', ''#> -\<newline>'', ''#< 200\<newline>'',
      ''#< {"key": "value"}\<newline>'']\<close>
    by (simp add: END_MARK_def NL_def)
  have next_d: "replay_iterator_next sample_env (replay_on IN_CONTENTS)
      = (Yielded ?d, (replay_on IN_CONTENTS)\<lparr>rep_pending := ?rest\<rparr>)"
    using iterator_next_record[OF h1 h2 h3, of sample_env] sample_first_record by simp
  have pre: "list_all (\<lambda>(k, v). v = replay_field ?d k) [(Method, PStr ''GET'')]"
    by (simp add: replay_field_def)
  have differs: "PStr ''/badreq'' \<noteq> replay_field ?d Url"
    by (simp add: replay_field_def)
  show ?thesis
    using check_match_exact[of ?d "[]" "[(Method, PStr ''GET'')]" "PStr ''/badreq''" Url
        "[(Params, PStr ''-''), (Body, PStr ''-'')]" sample_env "replay_on IN_CONTENTS"
        "(replay_on IN_CONTENTS)\<lparr>rep_pending := ?rest\<rparr>" "''GET''" "''/badreq''" None PNone]
      next_d pre differs
    by (simp add: replay_field_def)
qed

section \<open>Decimal text of an integer\<close>

lemma digit_roundtrip:
  assumes "d < 10"
  shows "is_digit (digit_char d) \<and> digit_val (digit_char d) = d"
proof -
  from assms consider "d = 0" | "d = 1" | "d = 2" | "d = 3" | "d = 4"
    | "d = 5" | "d = 6" | "d = 7" | "d = 8" | "d = 9"
    by atomize_elim arith
  then show ?thesis
    by cases (simp_all add: digit_char_def is_digit_def digit_val_def)
qed

lemma parse_digits_append:
  "parse_digits acc (xs @ ys) =
     (case parse_digits acc xs of None \<Rightarrow> None | Some a \<Rightarrow> parse_digits a ys)"
  by (induction xs arbitrary: acc) auto

lemma parse_str_nat: "parse_digits 0 (str_nat n) = Some n"
proof (induction n rule: str_nat.induct)
  case (1 n)
  show ?case
  proof (cases "n < 10")
    case True
    then show ?thesis
      using digit_roundtrip[of n] by (simp add: str_nat.simps[of n])
  next
    case False
    have "n mod 10 < 10" by simp
    then show ?thesis
      using False 1 digit_roundtrip[of "n mod 10"]
      by (simp add: str_nat.simps[of n] parse_digits_append)
  qed
qed

lemma str_nat_nonempty: "str_nat n \<noteq> []"
  by (subst str_nat.simps) simp

lemma str_nat_digits: "c \<in> set (str_nat n) \<Longrightarrow> is_digit c"
proof (induction n rule: str_nat.induct)
  case (1 n)
  have last_digit: "is_digit (digit_char (n mod 10))"
    using digit_roundtrip[of "n mod 10"] by simp
  show ?case
  proof (cases "n < 10")
    case True
    then show ?thesis
      using "1.prems" digit_roundtrip[of n] by (simp add: str_nat.simps[of n])
  next
    case False
    then show ?thesis
      using 1 last_digit by (auto simp: str_nat.simps[of n])
  qed
qed

lemma digit_plain:
  "is_digit c \<Longrightarrow> \<not> is_space c \<and> c \<noteq> NL \<and> c \<noteq> CHR ''-'' \<and> c \<noteq> CHR ''+''"
  by (auto simp: is_digit_def is_space_def NL_def)

lemma str_int_plain: "c \<in> set (str_int i) \<Longrightarrow> \<not> is_space c \<and> c \<noteq> NL"
  using str_nat_digits digit_plain
  by (auto simp: str_int_def is_space_def NL_def split: if_splits)

lemma str_int_nonempty: "str_int i \<noteq> []"
  by (simp add: str_int_def str_nat_nonempty)

lemma strip_ws_id:
  assumes "s \<noteq> []" and "\<And>c. c \<in> set s \<Longrightarrow> \<not> is_space c"
  shows "strip_ws s = s"
proof -
  have front: "dropWhile is_space s = s"
    using assms by (cases s) auto
  have "rev s \<noteq> []" and "\<not> is_space (hd (rev s))"
    using assms by (simp_all add: hd_rev)
  then have "dropWhile is_space (rev s) = rev s"
    by (cases "rev s") auto
  then show ?thesis
    by (simp add: strip_ws_def front)
qed

lemma py_int_str_int: "py_int (str_int i) = Some i"
proof -
  have strip: "strip_ws (str_int i) = str_int i"
    using strip_ws_id[of "str_int i"] str_int_nonempty[of i] str_int_plain[of _ i] by blast
  have unfolded: "py_int (str_int i) =
      (case str_int i of
         [] \<Rightarrow> None
       | c # r \<Rightarrow>
           if c = CHR ''-'' then map_option (\<lambda>n. - int n) (py_nat r)
           else if c = CHR ''+'' then map_option int (py_nat r)
           else map_option int (py_nat (c # r)))"
    by (simp only: py_int_def strip)
  show ?thesis
  proof (cases "i < 0")
    case True
    then have shape: "str_int i = CHR ''-'' # str_nat (nat (- i))"
      by (simp add: str_int_def)
    note unfolded
    also have "(case str_int i of
         [] \<Rightarrow> None
       | c # r \<Rightarrow>
           if c = CHR ''-'' then map_option (\<lambda>n. - int n) (py_nat r)
           else if c = CHR ''+'' then map_option int (py_nat r)
           else map_option int (py_nat (c # r))) = Some i"
      using True by (simp add: shape py_nat_def str_nat_nonempty parse_str_nat)
    finally show ?thesis .
  next
    case False
    obtain c r where cr: "str_nat (nat i) = c # r"
      using str_nat_nonempty[of "nat i"] by (cases "str_nat (nat i)") auto
    then have "is_digit c"
      using str_nat_digits[of c "nat i"] by simp
    then have plain: "c \<noteq> CHR ''-''" "c \<noteq> CHR ''+''"
      using digit_plain[of c] by simp_all
    have parsed: "py_nat (c # r) = Some (nat i)"
      using parse_str_nat[of "nat i"] cr by (simp add: py_nat_def)
    have shape: "str_int i = c # r"
      using False cr by (simp add: str_int_def)
    note unfolded
    also have "(case str_int i of
         [] \<Rightarrow> None
       | c # r \<Rightarrow>
           if c = CHR ''-'' then map_option (\<lambda>n. - int n) (py_nat r)
           else if c = CHR ''+'' then map_option int (py_nat r)
           else map_option int (py_nat (c # r))) = Some i"
      using False plain parsed by (simp add: shape)
    finally show ?thesis .
  qed
qed

section \<open>Lines, tokens and trailing newlines\<close>

lemma split_on_none: "c \<notin> set s \<Longrightarrow> split_on c s = [s]"
  by (induction s) auto

lemma split_on_first: "c \<notin> set a \<Longrightarrow> split_on c (a @ c # b) = a # split_on c b"
  by (induction a) auto

lemma file_lines_acc_line:
  "NL \<notin> set l \<Longrightarrow> file_lines_acc cur (l @ NL # rest) = (cur @ l @ [NL]) # file_lines_acc [] rest"
  by (induction l arbitrary: cur) auto

lemma file_lines_line:
  "NL \<notin> set l \<Longrightarrow> file_lines (l @ NL # rest) = (l @ [NL]) # file_lines rest"
  using file_lines_acc_line[of l "[]" rest] by (simp add: file_lines_def)

lemma rstrip_nl_id: "NL \<notin> set s \<Longrightarrow> rstrip_nl s = s"
proof -
  assume "NL \<notin> set s"
  then have "dropWhile (\<lambda>c. c = NL) (rev s) = rev s"
    by (cases "rev s") (auto simp: hd_rev)
  then show ?thesis
    by (simp add: rstrip_nl_def)
qed

lemma rstrip_nl_line: "NL \<notin> set s \<Longrightarrow> rstrip_nl (s @ [NL]) = s"
  using rstrip_nl_id[of s] by (simp add: rstrip_nl_def)

section \<open>Recording an exchange and reading it back\<close>

lemma out_body_one_line:
  "NL \<notin> set s \<Longrightarrow> out_body marker s = (if s = [] then ''-'' else s)"
  by (simp add: out_body_def split_on_none)

lemma out_body_no_newline: "NL \<notin> set s \<Longrightarrow> NL \<notin> set (out_body marker s)"
  by (simp add: out_body_one_line NL_def)

lemma decode_exchange_lines:
  "create_replay_iterator e [] []
     [IN_MARK @ h, IN_MARK @ b, OUT_MARK @ s, OUT_MARK @ r, END_MARK]
   = (case get_whole_request_info e [h, b] [s, r] of
        Inl x \<Rightarrow> (Raised x, [])
      | Inr d \<Rightarrow> (Yielded d, []))"
  by (simp add: startswith_def IN_MARK_def OUT_MARK_def END_MARK_def NL_def)

lemma header_tokens:
  assumes "CHR '' '' \<notin> set m" and "CHR '' '' \<notin> set u" and "CHR '' '' \<notin> set p"
  shows "split_on CHR '' '' (m @ CHR '' '' # u @ CHR '' '' # p @ [NL]) = [m, u, p @ [NL]]"
proof -
  have "CHR '' '' \<notin> set (p @ [NL])"
    using assms(3) by (simp add: NL_def)
  then have "split_on CHR '' '' (p @ [NL]) = [p @ [NL]]"
    by (rule split_on_none)
  then show ?thesis
    using split_on_first[OF assms(1), of "u @ CHR '' '' # p @ [NL]"]
      split_on_first[OF assms(2), of "p @ [NL]"]
    by simp
qed

lemma get_whole_request_info_one_line:
  assumes "CHR '' '' \<notin> set m" and "NL \<notin> set m" and "CHR '' '' \<notin> set u" and "NL \<notin> set u"
    and "CHR '' '' \<notin> set p" and "NL \<notin> set p"
    and "NL \<notin> set b" and "NL \<notin> set r"
  shows "get_whole_request_info e
           [m @ '' '' @ u @ '' '' @ p @ [NL], b @ [NL]] [str_int n @ [NL], r @ [NL]]
         = Inr \<lparr>x_method = m, x_url = u, x_params = p,
                x_body = rstrip_val
                  (if b \<noteq> ''-'' then (case loads e (b @ [NL]) of Some v \<Rightarrow> v | None \<Rightarrow> PStr (b @ [NL]))
                   else PStr (b @ [NL])),
                x_status = n, x_response = r\<rparr>"
proof -
  have "NL \<notin> set (str_int n)"
    using str_int_plain[of NL n] by blast
  then have "rstrip_nl (str_int n @ [NL]) = str_int n"
    by (rule rstrip_nl_line)
  then have status: "py_int (rstrip_nl (str_int n @ [NL])) = Some n"
    by (simp add: py_int_str_int)
  show ?thesis
    using assms status
    by (simp add: get_whole_request_info_def header_tokens rstrip_nl_id rstrip_nl_line Let_def
        split: option.splits)
qed


lemma store_exchange_written:
  assumes "format_request e m u params body = Inr req"
    and "format_response e st data = Inr resp" and "endswith resp [NL]"
  shows "store_exchange e new_file m u params body st data
           = (\<lparr>written = req @ resp @ END_MARK, closed = False\<rparr>, None)"
  using assms
  by (simp add: store_exchange_def write_file_def flush_file_def new_file_def)

text \<open>
  C2, as the code has it. Take a method and a url without space or newline, a params token
  without space or newline, a request body whose serialized text \<open>sb\<close> (empty when the
  body is false) and a response whose serialized text \<open>sr\<close> hold no newline. Recording the
  exchange into a new file succeeds, and the replay iterator reads back from that file
  one exchange with the same method, url, params token and status; its body is the
  placeholder \<^verbatim>\<open>-\<close> when \<open>sb\<close> is empty or \<^verbatim>\<open>-\<close>, and otherwise \<open>sb\<close> deserialized (kept as
  text when that fails) with trailing newlines stripped from text; its response is \<open>sr\<close>,
  or the placeholder when \<open>sr\<close> is empty.
\<close>

theorem record_then_replay_exchange:
  assumes "CHR '' '' \<notin> set m" and "NL \<notin> set m" and "CHR '' '' \<notin> set u" and "NL \<notin> set u"
    and "CHR '' '' \<notin> set (params_token e params)" and "NL \<notin> set (params_token e params)"
    and "if truthy body then dumps e body = Some sb else sb = []"
    and "NL \<notin> set sb"
    and "dumps e data = Some sr" and "NL \<notin> set sr"
  shows "\<exists>f. store_exchange e new_file m u params body (Code n) data = (f, None)
           \<and> create_replay_iterator e [] [] (file_lines (written f))
             = (Yielded
                  \<lparr>x_method = m, x_url = u, x_params = params_token e params,
                    x_body =
                      (if sb = [] \<or> sb = ''-'' then PStr ''-''
                       else rstrip_val (case loads e (sb @ [NL]) of Some v \<Rightarrow> v | None \<Rightarrow> PStr sb)),
                    x_status = n,
                    x_response = (if sr = [] then ''-'' else sr)\<rparr>,
                [])"
proof -
  let ?p = "params_token e params"
  let ?b = "if sb = [] then ''-'' else sb"
  let ?r = "if sr = [] then ''-'' else sr"
  let ?h = "m @ CHR '' '' # u @ CHR '' '' # ?p"
  have b_line: "NL \<notin> set ?b" and r_line: "NL \<notin> set ?r"
    using assms(8,10) by (simp_all add: NL_def)
  have h_line: "NL \<notin> set (IN_MARK @ ?h)"
    using assms(2,4,6) by (simp add: IN_MARK_def NL_def)
  have s_line: "NL \<notin> set (OUT_MARK @ str_int n)"
    using str_int_plain[of NL n] by (auto simp: OUT_MARK_def NL_def)
  have req: "format_request e m u params body
      = Inr (IN_MARK @ ?h @ [NL] @ IN_MARK @ ?b @ [NL])"
    using assms(7,8) by (auto simp: format_request_def out_body_one_line)
  have resp: "format_response e (Code n) data
      = Inr (OUT_MARK @ str_int n @ [NL] @ OUT_MARK @ ?r @ [NL])"
    using assms(9,10) by (simp add: format_response_def out_body_one_line)
  have ends: "endswith (OUT_MARK @ str_int n @ [NL] @ OUT_MARK @ ?r @ [NL]) [NL]"
    by (simp add: endswith_def)
  let ?f = "\<lparr>written = (IN_MARK @ ?h @ [NL] @ IN_MARK @ ?b @ [NL])
      @ (OUT_MARK @ str_int n @ [NL] @ OUT_MARK @ ?r @ [NL]) @ END_MARK, closed = False\<rparr>"
  have stored: "store_exchange e new_file m u params body (Code n) data = (?f, None)"
    by (rule store_exchange_written[OF req resp ends])
  have in_b: "NL \<notin> set (IN_MARK @ ?b)" and out_r: "NL \<notin> set (OUT_MARK @ ?r)"
    using b_line r_line by (simp_all add: IN_MARK_def OUT_MARK_def NL_def)
  have end_lines: "file_lines END_MARK = [END_MARK]"
    by (simp add: file_lines_def END_MARK_def NL_def)
  have l4: "file_lines ((OUT_MARK @ ?r) @ NL # END_MARK) = [(OUT_MARK @ ?r) @ [NL], END_MARK]"
    using file_lines_line[OF out_r, of END_MARK] end_lines by simp
  have l3: "file_lines ((OUT_MARK @ str_int n) @ NL # (OUT_MARK @ ?r) @ NL # END_MARK)
      = [(OUT_MARK @ str_int n) @ [NL], (OUT_MARK @ ?r) @ [NL], END_MARK]"
    using file_lines_line[OF s_line, of "(OUT_MARK @ ?r) @ NL # END_MARK"] l4 by simp
  have l2: "file_lines ((IN_MARK @ ?b) @ NL # (OUT_MARK @ str_int n) @ NL # (OUT_MARK @ ?r) @ NL # END_MARK)
      = [(IN_MARK @ ?b) @ [NL], (OUT_MARK @ str_int n) @ [NL], (OUT_MARK @ ?r) @ [NL], END_MARK]"
    using file_lines_line[OF in_b,
        of "(OUT_MARK @ str_int n) @ NL # (OUT_MARK @ ?r) @ NL # END_MARK"] l3
    by simp
  have l1: "file_lines ((IN_MARK @ ?h) @ NL # (IN_MARK @ ?b) @ NL # (OUT_MARK @ str_int n) @ NL
        # (OUT_MARK @ ?r) @ NL # END_MARK)
      = [(IN_MARK @ ?h) @ [NL], (IN_MARK @ ?b) @ [NL], (OUT_MARK @ str_int n) @ [NL],
         (OUT_MARK @ ?r) @ [NL], END_MARK]"
    using file_lines_line[OF h_line,
        of "(IN_MARK @ ?b) @ NL # (OUT_MARK @ str_int n) @ NL # (OUT_MARK @ ?r) @ NL # END_MARK"] l2
    by simp
  have lines: "file_lines (written ?f)
      = [IN_MARK @ (?h @ [NL]), IN_MARK @ (?b @ [NL]), OUT_MARK @ (str_int n @ [NL]),
         OUT_MARK @ (?r @ [NL]), END_MARK]"
    using l1 by simp
  have decoded: "get_whole_request_info e [?h @ [NL], ?b @ [NL]] [str_int n @ [NL], ?r @ [NL]]
      = Inr \<lparr>x_method = m, x_url = u, x_params = ?p,
             x_body = rstrip_val
               (if ?b \<noteq> ''-'' then (case loads e (?b @ [NL]) of Some v \<Rightarrow> v | None \<Rightarrow> PStr (?b @ [NL]))
                else PStr (?b @ [NL])),
             x_status = n, x_response = ?r\<rparr>"
    using get_whole_request_info_one_line[OF assms(1,2,3,4,5,6) b_line r_line, of e n]
    by simp
  have body: "rstrip_val
        (if ?b \<noteq> ''-'' then (case loads e (?b @ [NL]) of Some v \<Rightarrow> v | None \<Rightarrow> PStr (?b @ [NL]))
         else PStr (?b @ [NL]))
      = (if sb = [] \<or> sb = ''-'' then PStr ''-''
         else rstrip_val (case loads e (sb @ [NL]) of Some v \<Rightarrow> v | None \<Rightarrow> PStr sb))"
    using rstrip_nl_line[OF assms(8)] rstrip_nl_id[OF assms(8)]
    by (auto simp: rstrip_nl_def NL_def split: option.splits)
  have "create_replay_iterator e [] [] (file_lines (written ?f))
      = (Yielded
           \<lparr>x_method = m, x_url = u, x_params = ?p,
             x_body =
               (if sb = [] \<or> sb = ''-'' then PStr ''-''
                else rstrip_val (case loads e (sb @ [NL]) of Some v \<Rightarrow> v | None \<Rightarrow> PStr sb)),
             x_status = n, x_response = ?r\<rparr>,
         [])"
    unfolding lines decode_exchange_lines decoded body by simp
  then show ?thesis
    using stored by blast
qed

theorem record_then_replay_exchange_witness:
  \<open>\<exists>f. store_exchange sample_env new_file ''GET'' ''/myindex2'' None
           (PDict [(''req'', PStr ''body'')]) (Code 200) (PDict [(''key'', PStr ''value2'')])
         = (f, None)
       \<and> create_replay_iterator sample_env [] [] (file_lines (written f))
         = (Yielded
              \<lparr>x_method = ''GET'', x_url = ''/myindex2'', x_params = ''-'',
                x_body = PDict [(''req'', PStr ''body'')],
                x_status = 200, x_response = ''{"key": "value2"}''\<rparr>,
            [])\<close>
  using record_then_replay_exchange[where m = "''GET''" and u = "''/myindex2''"
      and e = sample_env and params = None and body = "PDict [(''req'', PStr ''body'')]"
      and sb = \<open>''{"req": "body"}''\<close> and data = "PDict [(''key'', PStr ''value2'')]"
      and sr = \<open>''{"key": "value2"}''\<close> and n = 200]
  by (simp add: params_token_def sample_defs NL_def is_space_def)

theorem record_then_replay_counterexample:
  \<open>create_replay_iterator sample_env [] []
      (file_lines (written (fst (store_exchange sample_env new_file
         ''GET'' ''/my index'' None PNone (Code 200) (PDict [])))))
     = (Raised ValueError, [])
   \<and> create_replay_iterator sample_env [] []
      (file_lines (written (fst (store_exchange sample_env new_file
         ''HEAD'' ''/myindex'' None PNone (Code 200) (PStr '''')))))
     = (Yielded
          \<lparr>x_method = ''HEAD'', x_url = ''/myindex'', x_params = ''-'', x_body = PStr ''-'',
            x_status = 200, x_response = ''-''\<rparr>,
        [])\<close>
  by (simp add: record_defs replay_defs string_defs sample_defs)

text \<open>A text body of several lines that is no JSON document comes back with every inner
  newline doubled: the lines keep their newline and are joined with another.\<close>

lemma multiline_text_body_doubled:
  \<open>create_replay_iterator sample_env [] []
      (file_lines (written (fst (store_exchange sample_env new_file
         ''POST'' ''/_bulk'' None (PStr ''a\<newline>b'') (Code 200) (PDict [])))))
     = (Yielded
          \<lparr>x_method = ''POST'', x_url = ''/_bulk'', x_params = ''-'', x_body = PStr ''a\<newline>\<newline>b'',
            x_status = 200, x_response = ''{}''\<rparr>,
        [])\<close>
  by (simp add: record_defs replay_defs string_defs sample_defs)

section \<open>Bodies in replay mode\<close>

text \<open>The bodies of the test suite: the recorded text, the same document with other
  whitespace, and the mapping itself all match the second record of \<^verbatim>\<open>IN_CONTENTS\<close>.\<close>

lemma equal_bodies_replay:
  \<open>fst (replay_run sample_env (replay_on IN_CONTENTS)
      [(''GET'', ''/myindex'', None, PNone),
       (''GET'', ''/myindex2'', None, PStr ''{"req": \<newline> "body"}'')])
     = [Inr (200, PDict [(''key'', PStr ''value'')]), Inr (200, PDict [(''key'', PStr ''value2'')])]
   \<and> fst (replay_run sample_env (replay_on IN_CONTENTS)
      [(''GET'', ''/myindex'', None, PNone),
       (''GET'', ''/myindex2'', None, PDict [(''req'', PStr ''body'')])])
     = [Inr (200, PDict [(''key'', PStr ''value'')]), Inr (200, PDict [(''key'', PStr ''value2'')])]\<close>
  by (simp add: replay_defs params_token_def string_defs sample_defs)

text \<open>
  C5, where the code departs from it. A call whose body is the text \<^verbatim>\<open>{}\<close> is recorded;
  the transcript holds the body line \<^verbatim>\<open>#> {}\<close>. Replaying the very same call raises
  \<^verbatim>\<open>RequestMatchError\<close>: the recorded body decodes to the empty mapping, while
  \<^verbatim>\<open>get_next_replay\<close> replaces the normalized body of the call, the same empty mapping, by
  the placeholder \<^verbatim>\<open>-\<close> because it is false.
\<close>

theorem empty_document_body_mismatch:
  \<open>rec_recfile (snd (record_perform_request sample_env
        (\<lambda>r. Inr (200, PDict [(''key'', PStr ''value'')]))
        \<lparr>rec_recfile = Some new_file, rec_calls = [], rec_diag = []\<rparr>
        ''GET'' ''/i/_search'' None (PStr ''{}'')))
     = Some \<lparr>written = unlines [''#> GET /i/_search -'', ''#> {}'', ''#< 200'',
                                  ''#< {"key": "value"}'', ''##''],
             closed = False\<rparr>
   \<and> fst (replay_perform_request sample_env
        (replay_on (unlines [''#> GET /i/_search -'', ''#> {}'', ''#< 200'',
                             ''#< {"key": "value"}'', ''##'']))
        ''GET'' ''/i/_search'' None (PStr ''{}''))
     = Inl RequestMatchError
   \<and> x_body (projr (decode_record sample_env
        [''#> GET /i/_search -\<newline>'', ''#> {}\<newline>'', ''#< 200\<newline>'', ''#< {"key": "value"}\<newline>'']))
     = PDict []
   \<and> current_body (normalize_body sample_env ''{}'') = PStr ''-''\<close>
  by (simp add: record_defs replay_defs string_defs sample_defs)

end
